theory Spec2Isabelle
  imports Main "HOL-Library.Word" "HOL-Library.AList"
begin

section \<open>JavaScript strings\<close>

text \<open>
  A JavaScript string is a sequence of UTF-16 code units. ASCII literals of the source
  are written \<open>lit ''...''\<close>; the German letters of the source's character class are
  given by their code units.
\<close>

type_synonym jschar = "16 word"
type_synonym jsstring = "jschar list"

definition lit :: "string \<Rightarrow> jsstring" where
  "lit s = map (\<lambda>c. of_nat (of_char c)) s"

definition isUpperAscii :: "jschar \<Rightarrow> bool" where
  "isUpperAscii c = (c \<in> set (lit ''ABCDEFGHIJKLMNOPQRSTUVWXYZ''))"

definition isLowerAscii :: "jschar \<Rightarrow> bool" where
  "isLowerAscii c = (c \<in> set (lit ''abcdefghijklmnopqrstuvwxyz''))"

definition isDigit :: "jschar \<Rightarrow> bool" where
  "isDigit c = (c \<in> set (lit ''0123456789''))"

text \<open>
  \<open>String.prototype.toLowerCase\<close>, restricted to what the source observes of it. The
  source only asks whether the lower-cased name ends with \<open>.zip\<close> or \<open>.pdf\<close>. The
  full Unicode mapping differs from this one on code points outside ASCII only, and the
  lower-case form of none of those ends in a code unit of \<open>.zip\<close> or \<open>.pdf\<close>, so both
  give the same answer to these suffix tests.
\<close>

definition toLowerChar :: "jschar \<Rightarrow> jschar" where
  "toLowerChar c = (if isUpperAscii c then c + 32 else c)"

definition toLowerCase :: "jsstring \<Rightarrow> jsstring" where
  "toLowerCase s = map toLowerChar s"

definition endsWith :: "jsstring \<Rightarrow> jsstring \<Rightarrow> bool" where
  "endsWith s suffix =
     (length suffix \<le> length s \<and> drop (length s - length suffix) s = suffix)"

text \<open>
  A regular expression with the \<open>i\<close> flag (and without \<open>u\<close>) compares characters after
  \<open>Canonicalize\<close>, which upper-cases a character unless that would turn a non-ASCII
  character into an ASCII one. For ASCII patterns this is: \<open>a\<close>--\<open>z\<close> become \<open>A\<close>--\<open>Z\<close>,
  everything else is itself.
\<close>

definition canonicalize :: "jschar \<Rightarrow> jschar" where
  "canonicalize c = (if isLowerAscii c then c - 32 else c)"

text \<open>Does \<open>/<pat>$/i\<close> match, for a pattern of literal characters?\<close>

definition matchesSuffixI :: "jsstring \<Rightarrow> jsstring \<Rightarrow> bool" where
  "matchesSuffixI pat s =
     (length pat \<le> length s \<and>
      map canonicalize (drop (length s - length pat) s) = map canonicalize pat)"

text \<open>\<open>s.replace(/<pat>$/i, '')\<close>: the match, if any, is the last characters of \<open>s\<close>.\<close>

definition replaceSuffixI :: "jsstring \<Rightarrow> jsstring \<Rightarrow> jsstring" where
  "replaceSuffixI pat s =
     (if matchesSuffixI pat s then take (length s - length pat) s else s)"

text \<open>
  \<open>s.split(sep)\<close> for a separator of one character: the pieces between the separators,
  one more than there are separators; the empty string gives one empty piece.
  \<open>splitFrom cur s\<close> carries the characters of the piece being read.
\<close>

fun splitFrom :: "jschar \<Rightarrow> jsstring \<Rightarrow> jsstring \<Rightarrow> jsstring list" where
  "splitFrom sep cur [] = [cur]"
| "splitFrom sep cur (c # cs) =
     (if c = sep then cur # splitFrom sep [] cs else splitFrom sep (cur @ [c]) cs)"

definition js_split :: "jschar \<Rightarrow> jsstring \<Rightarrow> jsstring list" where
  "js_split sep s = splitFrom sep [] s"

text \<open>\<open>parts.join(sep)\<close>.\<close>

fun js_join :: "jsstring \<Rightarrow> jsstring list \<Rightarrow> jsstring" where
  "js_join sep [] = []"
| "js_join sep [p] = p"
| "js_join sep (p # q # ps) = p @ sep @ js_join sep (q # ps)"

section \<open>The name normalizer: \<open>processFileName\<close>\<close>

text \<open>
  The three messages of \<open>processFileName\<close>, in the order of its checks:
  \<open>Dateiname hat weniger als 4 Unterstriche\<close>,
  \<open>Kein gueltiger Dateiname nach dem 4. Unterstrich gefunden\<close>,
  \<open>Dateiname entspricht nicht dem erwarteten Format\<close>. Each is a non-empty string,
  so \<open>result.error\<close> is truthy exactly when an error is present. The two further
  messages are those \<open>handleFiles\<close> attaches to an archive:
  \<open>Keine PDF-Dateien in der ZIP-Datei gefunden\<close> and
  \<open>ZIP-Datei konnte nicht verarbeitet werden\<close>.
\<close>

datatype message =
  TooFewSeparators | EmptyResult | UnexpectedFormat | NoPdfEntriesFound | ArchiveUnreadable

record nameResult =
  newName :: jsstring
  error :: "message option"

text \<open>\<open>/^\d+\)/\<close>: one or more decimal digits, then a closing parenthesis.\<close>

definition startsWithNumber :: "jsstring \<Rightarrow> bool" where
  "startsWithNumber s =
     (takeWhile isDigit s \<noteq> [] \<and>
      (case dropWhile isDigit s of [] \<Rightarrow> False | c # _ \<Rightarrow> c = 0x29))"

text \<open>
  \<open>/^[a-zA-Z...]/\<close> with the seven German letters of the source:
  a-umlaut \<open>0xE4\<close>, o-umlaut \<open>0xF6\<close>, u-umlaut \<open>0xFC\<close>, their capitals
  \<open>0xC4\<close>, \<open>0xD6\<close>, \<open>0xDC\<close>, and sharp s \<open>0xDF\<close>.
\<close>

definition germanLetters :: "jschar list" where
  "germanLetters = [0xE4, 0xF6, 0xFC, 0xC4, 0xD6, 0xDC, 0xDF]"

definition startsWithWord :: "jsstring \<Rightarrow> bool" where
  "startsWithWord s =
     (case s of [] \<Rightarrow> False
      | c # _ \<Rightarrow> isLowerAscii c \<or> isUpperAscii c \<or> c \<in> set germanLetters)"

definition processFileName :: "jsstring \<Rightarrow> nameResult" where
  "processFileName fileName =
     (let nameWithoutExt = replaceSuffixI (lit ''.pdf'') fileName;
          parts = js_split 0x5F nameWithoutExt
      in if length parts < 5
         then \<lparr>newName = fileName, error = Some TooFewSeparators\<rparr>
         else let actualFileName = js_join (lit ''_'') (drop 4 parts)
              in if actualFileName = []
                 then \<lparr>newName = fileName, error = Some EmptyResult\<rparr>
                 else if \<not> startsWithNumber actualFileName \<and> \<not> startsWithWord actualFileName
                 then \<lparr>newName = fileName, error = Some UnexpectedFormat\<rparr>
                 else \<lparr>newName = actualFileName @ lit ''.pdf'', error = None\<rparr>)"

section \<open>Files and archives\<close>

type_synonym bytes = "8 word list"

text \<open>
  A browser \<open>File\<close>: its name, its declared media type and its bytes. Reading the bytes
  of a file (\<open>arrayBuffer()\<close>) is taken to succeed.
\<close>

record File =
  name :: jsstring
  type :: jsstring
  content :: bytes

text \<open>
  The archive codec is the JSZip library, which is not part of the repository: decoding
  (\<open>loadAsync\<close>) and encoding (\<open>generateAsync\<close>) are parameters of the model. A decoded
  archive is seen through \<open>Object.entries(zip.files)\<close>: an ordered list of names with
  their entries. An entry says whether it is a directory and what \<open>async('blob')\<close>
  gives, \<open>None\<close> when that read fails.
\<close>

record zipEntry =
  dir :: bool
  async_blob :: "bytes option"

type_synonym zipFiles = "(jsstring \<times> zipEntry) list"

type_synonym decoder = "bytes \<Rightarrow> zipFiles option"
type_synonym encoder = "zipFiles \<Rightarrow> bytes option"

text \<open>
  The loop of \<open>extractPDFsFromZip\<close> over the entries, with \<open>pdfFiles\<close> as accumulator;
  \<open>None\<close> when an \<open>await\<close> in it throws.
\<close>

fun collectPdfs :: "zipFiles \<Rightarrow> File list \<Rightarrow> File list option" where
  "collectPdfs [] pdfFiles = Some pdfFiles"
| "collectPdfs ((filename, file) # rest) pdfFiles =
     (if \<not> dir file \<and> endsWith (toLowerCase filename) (lit ''.pdf'')
      then (case async_blob file of
              None \<Rightarrow> None
            | Some blob \<Rightarrow>
                collectPdfs rest
                  (pdfFiles @ [\<lparr>name = filename, type = lit ''application/pdf'', content = blob\<rparr>]))
      else collectPdfs rest pdfFiles)"

text \<open>The one error \<open>extractPDFsFromZip\<close> throws: \<open>ZIP-Datei konnte nicht gelesen werden\<close>.\<close>

datatype zipError = ZipNotReadable

definition extractPDFsFromZip :: "decoder \<Rightarrow> File \<Rightarrow> zipError + File list" where
  "extractPDFsFromZip loadAsync zipFile =
     (case loadAsync (content zipFile) of
        None \<Rightarrow> Inl ZipNotReadable
      | Some zipContent \<Rightarrow>
          (case collectPdfs zipContent [] of
             None \<Rightarrow> Inl ZipNotReadable
           | Some pdfFiles \<Rightarrow> Inr pdfFiles))"

section \<open>The batch: \<open>handleFiles\<close>\<close>

datatype fileStatus = Processed | Error

record ProcessedFile =
  originalFile :: File
  originalName :: jsstring
  newName_pf :: jsstring
  status :: fileStatus
  errorMessage :: "message option"

text \<open>The component state the pipeline reads and writes.\<close>

record appState =
  files :: "ProcessedFile list"
  uploadedZipName :: jsstring

definition initialState :: appState where
  "initialState = \<lparr>files = [], uploadedZipName = []\<rparr>"

text \<open>The item pushed for a PDF, loose or taken from an archive.\<close>

definition pdfItem :: "File \<Rightarrow> ProcessedFile" where
  "pdfItem file =
     (let result = processFileName (name file)
      in \<lparr>originalFile = file, originalName = name file, newName_pf = newName result,
          status = (if error result \<noteq> None then Error else Processed),
          errorMessage = error result\<rparr>)"

text \<open>The item pushed for an archive as a whole.\<close>

definition archiveItem :: "File \<Rightarrow> message \<Rightarrow> ProcessedFile" where
  "archiveItem file msg =
     \<lparr>originalFile = file, originalName = name file, newName_pf = name file,
      status = Error, errorMessage = Some msg\<rparr>"

text \<open>
  The conditions of the \<open>if\<close> / \<open>else if\<close> of the loop body, in the source's order.
\<close>

datatype inputKind = ZipInput | PdfInput | OtherInput

definition classify :: "File \<Rightarrow> inputKind" where
  "classify file =
     (if endsWith (toLowerCase (name file)) (lit ''.zip'') then ZipInput
      else if type file = lit ''application/pdf'' \<or> endsWith (toLowerCase (name file)) (lit ''.pdf'')
      then PdfInput
      else OtherInput)"

text \<open>
  The loop carries \<open>processedFiles\<close> and the value last given to \<open>setUploadedZipName\<close>.
  \<open>pushAll\<close> is the \<open>forEach\<close> over the extracted PDFs.
\<close>

fun pushAll :: "ProcessedFile list \<Rightarrow> File list \<Rightarrow> ProcessedFile list" where
  "pushAll processedFiles [] = processedFiles"
| "pushAll processedFiles (pdfFile # rest) = pushAll (processedFiles @ [pdfItem pdfFile]) rest"

definition handleZip ::
  "decoder \<Rightarrow> File \<Rightarrow> ProcessedFile list \<times> jsstring \<Rightarrow> ProcessedFile list \<times> jsstring" where
  "handleZip loadAsync file s =
     (let processedFiles = fst s;
          zipName = replaceSuffixI (lit ''.zip'') (name file)
      in case extractPDFsFromZip loadAsync file of
           Inr pdfFiles \<Rightarrow>
             if length pdfFiles = 0
             then (processedFiles @ [archiveItem file NoPdfEntriesFound], zipName)
             else (pushAll processedFiles pdfFiles, zipName)
         | Inl e \<Rightarrow> (processedFiles @ [archiveItem file ArchiveUnreadable], zipName))"

definition handlePdf ::
  "File \<Rightarrow> ProcessedFile list \<times> jsstring \<Rightarrow> ProcessedFile list \<times> jsstring" where
  "handlePdf file s = (fst s @ [pdfItem file], snd s)"

definition handleFile ::
  "decoder \<Rightarrow> File \<Rightarrow> ProcessedFile list \<times> jsstring \<Rightarrow> ProcessedFile list \<times> jsstring" where
  "handleFile loadAsync file s =
     (case classify file of
        ZipInput \<Rightarrow> handleZip loadAsync file s
      | PdfInput \<Rightarrow> handlePdf file s
      | OtherInput \<Rightarrow> s)"

text \<open>
  The \<open>for\<close> loop of \<open>handleFiles\<close> and the append to the batch after it. Every throw of
  the loop body is caught by the inner \<open>try\<close>, so the outer \<open>catch\<close> is never entered and
  \<open>setFiles\<close> is always reached.
\<close>

fun handleLoop ::
  "decoder \<Rightarrow> File list \<Rightarrow> ProcessedFile list \<times> jsstring \<Rightarrow> ProcessedFile list \<times> jsstring" where
  "handleLoop loadAsync [] s = s"
| "handleLoop loadAsync (file # rest) s = handleLoop loadAsync rest (handleFile loadAsync file s)"

definition handleFiles :: "decoder \<Rightarrow> File list \<Rightarrow> appState \<Rightarrow> appState" where
  "handleFiles loadAsync fileList st =
     (let s = handleLoop loadAsync fileList ([], uploadedZipName st)
      in \<lparr>files = files st @ fst s, uploadedZipName = snd s\<rparr>)"



section \<open>Packaging: \<open>downloadAllAsZip\<close>\<close>

text \<open>
  \<open>zip.file(name, data)\<close> on the archive being built: the entry of that name is set,
  in place when the name is already there, at the end otherwise. Only file entries are
  kept in the model; directory entries the library may add for the folders of a path
  are skipped by \<open>extractPDFsFromZip\<close> in any case.
\<close>

definition zip_file :: "zipFiles \<Rightarrow> jsstring \<Rightarrow> bytes \<Rightarrow> zipFiles" where
  "zip_file z n d = AList.update n \<lparr>dir = False, async_blob = Some d\<rparr> z"

fun addFiles :: "zipFiles \<Rightarrow> ProcessedFile list \<Rightarrow> zipFiles" where
  "addFiles z [] = z"
| "addFiles z (file # rest) =
     addFiles (zip_file z (newName_pf file) (content (originalFile file))) rest"

text \<open>
  What \<open>downloadAllAsZip\<close> does: nothing, the failure notice of its \<open>catch\<close>, or a
  download of the archive under a file name.
\<close>

datatype outcome = NoDownload | Failed | Download jsstring bytes

definition downloadAllAsZip :: "encoder \<Rightarrow> appState \<Rightarrow> outcome" where
  "downloadAllAsZip generateAsync st =
     (let successfulFiles = filter (\<lambda>f. status f = Processed) (files st)
      in if length successfulFiles = 0 then NoDownload
         else case generateAsync (addFiles [] successfulFiles) of
                None \<Rightarrow> Failed
              | Some zipBlob \<Rightarrow>
                  Download
                    (if uploadedZipName st \<noteq> [] then uploadedZipName st @ lit ''.zip''
                     else lit ''bAV-Angebot.zip'')
                    zipBlob)"

section \<open>Reading an archive back\<close>

text \<open>
  What the JSZip loader does with the names of an archive, as far as the batch can see it.
  The loader passes the name of every entry through the library's \<open>resolve\<close>: the name is
  split at \<open>/\<close>; a piece \<open>.\<close> is dropped, and so is an empty piece that is neither the
  first nor the last; a piece \<open>..\<close> removes the piece kept before it, if there is one;
  the pieces kept are joined with \<open>/\<close> again. The loop carries the index of the piece and
  the pieces kept so far.
\<close>

fun resolveLoop :: "nat \<Rightarrow> nat \<Rightarrow> jsstring list \<Rightarrow> jsstring list \<Rightarrow> jsstring list" where
  "resolveLoop n index [] result = result"
| "resolveLoop n index (part # rest) result =
     (if part = lit ''.'' \<or> (part = [] \<and> index \<noteq> 0 \<and> index \<noteq> n - 1)
      then resolveLoop n (Suc index) rest result
      else if part = lit ''..'' then resolveLoop n (Suc index) rest (butlast result)
      else resolveLoop n (Suc index) rest (result @ [part]))"

definition resolve :: "jsstring \<Rightarrow> jsstring" where
  "resolve path =
     (let parts = js_split 0x2F path
      in js_join (lit ''/'') (resolveLoop (length parts) 0 parts []))"



section \<open>Sessions\<close>


section \<open>Notions used to state the properties\<close>

text \<open>The items one input contributes, and the archive name after it.\<close>

definition itemsOf :: "decoder \<Rightarrow> File \<Rightarrow> ProcessedFile list" where
  "itemsOf loadAsync f = fst (handleFile loadAsync f ([], []))"

definition nameAfter :: "File \<Rightarrow> jsstring \<Rightarrow> jsstring" where
  "nameAfter f u =
     (if classify f = ZipInput then replaceSuffixI (lit ''.zip'') (name f) else u)"





subsection \<open>Sample inputs\<close>

text \<open>
  Three archives and a loose PDF, with a decoder that reads the first archive as one PDF
  and a text file, the second as a text file only, and fails on the third; and an encoder
  that knows one archive.
\<close>

definition offerZip :: File where
  "offerZip = \<lparr>name = lit ''Angebot.zip'', type = lit ''application/zip'', content = [1]\<rparr>"

definition emptyZip :: File where
  "emptyZip = \<lparr>name = lit ''leer.ZIP'', type = lit ''application/pdf'', content = [2]\<rparr>"

definition brokenZip :: File where
  "brokenZip = \<lparr>name = lit ''kaputt.zip'', type = lit ''application/zip'', content = [3]\<rparr>"

definition loosePdf :: File where
  "loosePdf = \<lparr>name = lit ''A_B_C_D_x.pdf'', type = lit ''application/pdf'', content = [4]\<rparr>"

definition sampleDecoder :: decoder where
  "sampleDecoder b =
     (if b = [1] then
        Some [(lit ''A_B_C_D_note.PDF'', \<lparr>dir = False, async_blob = Some [7]\<rparr>),
              (lit ''readme.txt'', \<lparr>dir = False, async_blob = Some [8]\<rparr>)]
      else if b = [2] then Some [(lit ''readme.txt'', \<lparr>dir = False, async_blob = Some [8]\<rparr>)]
      else if b = [5] then
        Some [(lit ''docs/'', \<lparr>dir = True, async_blob = None\<rparr>),
              (lit ''x.pdf'', \<lparr>dir = False, async_blob = Some [4]\<rparr>)]
      else None)"

definition sampleEncoder :: encoder where
  "sampleEncoder z =
     (if z = [(lit ''x.pdf'', \<lparr>dir = False, async_blob = Some [4]\<rparr>)] then Some [5] else None)"




section \<open>Properties of the normalizer\<close>

lemmas char_class_defs =
  lit_def isUpperAscii_def isLowerAscii_def isDigit_def germanLetters_def
  toLowerChar_def toLowerCase_def endsWith_def canonicalize_def matchesSuffixI_def
  replaceSuffixI_def

lemmas normalizer_defs =
  char_class_defs js_split_def startsWithNumber_def startsWithWord_def processFileName_def

lemma length_splitFrom: "length (splitFrom sep cur s) = Suc (count_list s sep)"
  by (induction s arbitrary: cur) simp_all

lemma length_js_split: "length (js_split sep s) = Suc (count_list s sep)"
  by (simp add: js_split_def length_splitFrom)

text \<open>
  C2. A file name that, once a trailing \<open>.pdf\<close> (in any case) is removed, splits at
  \<open>_\<close> into fewer than 5 pieces, which is to say has fewer than 4 underscores, is
  rejected with the message for too few separators, and the name returned is the file
  name as it was given.
\<close>

theorem processFileName_too_few_separators:
  "(length (js_split 0x5F (replaceSuffixI (lit ''.pdf'') fileName)) < 5
      \<longleftrightarrow> count_list (replaceSuffixI (lit ''.pdf'') fileName) 0x5F < 4) \<and>
   (length (js_split 0x5F (replaceSuffixI (lit ''.pdf'') fileName)) < 5 \<longrightarrow>
      processFileName fileName = \<lparr>newName = fileName, error = Some TooFewSeparators\<rparr>)"
proof -
  have "length (js_split 0x5F (replaceSuffixI (lit ''.pdf'') fileName)) =
        Suc (count_list (replaceSuffixI (lit ''.pdf'') fileName) 0x5F)"
    by (rule length_js_split)
  then show ?thesis
    by (simp add: processFileName_def Let_def)
qed

theorem processFileName_too_few_separators_witness:
  "length (js_split 0x5F (replaceSuffixI (lit ''.pdf'') (lit ''A_B_C_D.pdf''))) < 5 \<and>
   count_list (replaceSuffixI (lit ''.pdf'') (lit ''A_B_C_D.pdf'')) 0x5F < 4 \<and>
   processFileName (lit ''A_B_C_D.pdf'') =
     \<lparr>newName = lit ''A_B_C_D.pdf'', error = Some TooFewSeparators\<rparr>"
proof -
  have h: "length (js_split 0x5F (replaceSuffixI (lit ''.pdf'') (lit ''A_B_C_D.pdf''))) < 5"
    by (simp add: char_class_defs js_split_def)
  from h processFileName_too_few_separators [of "lit ''A_B_C_D.pdf''"]
  show ?thesis by blast
qed

text \<open>
  C3. When the normalizer accepts a file name, the name it returns is the pieces from
  index 4 on of the underscore split (of the name without one trailing \<open>.pdf\<close>, in any
  case), joined with \<open>_\<close> again, followed by the lower-case \<open>.pdf\<close>. The file name
  \<open>A_B_C_D_B\<close>, u-umlaut, \<open>robedarf.PDF\<close> becomes \<open>B\<close>, u-umlaut, \<open>robedarf.pdf\<close>.
\<close>

theorem processFileName_accepted_name:
  "(error (processFileName fileName) = None \<longrightarrow>
      newName (processFileName fileName) =
        js_join (lit ''_'') (drop 4 (js_split 0x5F (replaceSuffixI (lit ''.pdf'') fileName)))
          @ lit ''.pdf'') \<and>
   processFileName (lit ''A_B_C_D_B'' @ [0xFC] @ lit ''robedarf.PDF'') =
     \<lparr>newName = lit ''B'' @ [0xFC] @ lit ''robedarf.pdf'', error = None\<rparr>"
proof
  show "error (processFileName fileName) = None \<longrightarrow>
      newName (processFileName fileName) =
        js_join (lit ''_'') (drop 4 (js_split 0x5F (replaceSuffixI (lit ''.pdf'') fileName)))
          @ lit ''.pdf''"
    by (simp add: processFileName_def Let_def)
next
  show "processFileName (lit ''A_B_C_D_B'' @ [0xFC] @ lit ''robedarf.PDF'') =
     \<lparr>newName = lit ''B'' @ [0xFC] @ lit ''robedarf.pdf'', error = None\<rparr>"
    by (simp add: normalizer_defs Let_def)
qed

theorem processFileName_accepted_name_witness:
  "error (processFileName (lit ''Max_Mustermann_01.01.2024_1500,00_1)_Beratungsdokumente.PDF'')) = None \<and>
   newName (processFileName (lit ''Max_Mustermann_01.01.2024_1500,00_1)_Beratungsdokumente.PDF'')) =
     lit ''1)_Beratungsdokumente.pdf''"
proof -
  have h: "error (processFileName (lit ''Max_Mustermann_01.01.2024_1500,00_1)_Beratungsdokumente.PDF'')) = None"
    by (simp add: normalizer_defs Let_def)
  have "js_join (lit ''_'') (drop 4 (js_split 0x5F (replaceSuffixI (lit ''.pdf'')
          (lit ''Max_Mustermann_01.01.2024_1500,00_1)_Beratungsdokumente.PDF''))))
          @ lit ''.pdf'' = lit ''1)_Beratungsdokumente.pdf''"
    by (simp add: char_class_defs js_split_def)
  with h processFileName_accepted_name
         [of "lit ''Max_Mustermann_01.01.2024_1500,00_1)_Beratungsdokumente.PDF''"]
  show ?thesis by simp
qed

text \<open>
  C4. The normalizer is a total function without a throwing branch: for every file name
  its result is one of four values, the accepted name or one of three rejections.
  Whenever the result carries an error, the error is one of the three of the
  normalizer and the name returned is the file name as it was given.
\<close>

theorem processFileName_rejection_keeps_name:
  "processFileName fileName \<in>
     {\<lparr>newName = js_join (lit ''_'')
                   (drop 4 (js_split 0x5F (replaceSuffixI (lit ''.pdf'') fileName))) @ lit ''.pdf'',
       error = None\<rparr>,
      \<lparr>newName = fileName, error = Some TooFewSeparators\<rparr>,
      \<lparr>newName = fileName, error = Some EmptyResult\<rparr>,
      \<lparr>newName = fileName, error = Some UnexpectedFormat\<rparr>} \<and>
   (error (processFileName fileName) = Some e \<longrightarrow>
      newName (processFileName fileName) = fileName \<and>
      e \<in> {TooFewSeparators, EmptyResult, UnexpectedFormat})"
  by (auto simp add: processFileName_def Let_def split: if_splits)

theorem processFileName_rejection_keeps_name_witness:
  "error (processFileName (lit ''4_B_C_D_2somefile'')) = Some UnexpectedFormat \<and>
   newName (processFileName (lit ''4_B_C_D_2somefile'')) = lit ''4_B_C_D_2somefile''"
proof -
  have h: "error (processFileName (lit ''4_B_C_D_2somefile'')) = Some UnexpectedFormat"
    by (simp add: normalizer_defs Let_def)
  from h processFileName_rejection_keeps_name [of "lit ''4_B_C_D_2somefile''" UnexpectedFormat]
  show ?thesis by simp
qed

section \<open>Properties of the batch\<close>

lemmas sample_defs =
  offerZip_def emptyZip_def brokenZip_def loosePdf_def sampleDecoder_def sampleEncoder_def

lemma pushAll_append: "pushAll processedFiles pdfFiles = processedFiles @ map pdfItem pdfFiles"
  by (induction pdfFiles arbitrary: processedFiles) simp_all

lemma handleZip_eq:
  "handleZip loadAsync f s =
     (fst s @ fst (handleZip loadAsync f ([], [])), replaceSuffixI (lit ''.zip'') (name f))"
  by (simp add: handleZip_def Let_def pushAll_append split: sum.splits)

lemma handleFile_eq:
  "handleFile loadAsync f s = (fst s @ itemsOf loadAsync f, nameAfter f (snd s))"
proof (cases "classify f")
  case ZipInput
  then show ?thesis
    using handleZip_eq [of loadAsync f s]
    by (simp add: handleFile_def itemsOf_def nameAfter_def)
next
  case PdfInput
  then show ?thesis
    by (simp add: handleFile_def itemsOf_def nameAfter_def handlePdf_def)
next
  case OtherInput
  then show ?thesis
    by (simp add: handleFile_def itemsOf_def nameAfter_def)
qed

lemma handleLoop_eq:
  "handleLoop loadAsync fileList s =
     (fst s @ concat (map (itemsOf loadAsync) fileList),
      foldl (\<lambda>u f. nameAfter f u) (snd s) fileList)"
  by (induction fileList arbitrary: s) (simp_all add: handleFile_eq)

lemma files_handleFiles:
  "files (handleFiles loadAsync fileList st) = files st @ concat (map (itemsOf loadAsync) fileList)"
  by (simp add: handleFiles_def Let_def handleLoop_eq)

lemma uploadedZipName_handleFiles:
  "uploadedZipName (handleFiles loadAsync fileList st) =
     foldl (\<lambda>u f. nameAfter f u) (uploadedZipName st) fileList"
  by (simp add: handleFiles_def Let_def handleLoop_eq)

lemma handleFiles_append:
  "handleFiles loadAsync later (handleFiles loadAsync earlier st) =
     handleFiles loadAsync (earlier @ later) st"
  by (simp add: handleFiles_def Let_def handleLoop_eq)

lemma itemsOf_single:
  "files (handleFiles loadAsync [f] initialState) = itemsOf loadAsync f"
  by (simp add: files_handleFiles initialState_def)

lemma foldl_nameAfter:
  "foldl (\<lambda>u f. nameAfter f u) u fileList =
     (case filter (\<lambda>f. classify f = ZipInput) fileList of
        [] \<Rightarrow> u
      | z # zs \<Rightarrow> replaceSuffixI (lit ''.zip'') (name (last (z # zs))))"
proof (induction fileList rule: rev_induct)
  case Nil
  then show ?case by simp
next
  case (snoc f fs)
  then show ?case
    by (simp add: nameAfter_def split: list.splits)
qed

lemma itemsOf_zip:
  "classify f = ZipInput \<Longrightarrow>
   itemsOf loadAsync f =
     (case extractPDFsFromZip loadAsync f of
        Inl e \<Rightarrow> [archiveItem f ArchiveUnreadable]
      | Inr pdfFiles \<Rightarrow>
          if pdfFiles = [] then [archiveItem f NoPdfEntriesFound] else map pdfItem pdfFiles)"
  by (simp add: itemsOf_def handleFile_def handleZip_def Let_def pushAll_append split: sum.splits)

lemma collectPdfs_no_pdf:
  "\<forall>entry \<in> set zipContent. \<not> endsWith (toLowerCase (fst entry)) (lit ''.pdf'') \<Longrightarrow>
   collectPdfs zipContent pdfFiles = Some pdfFiles"
  by (induction zipContent arbitrary: pdfFiles) auto

subsection \<open>The sample inputs, evaluated\<close>

lemma classify_samples:
  "classify offerZip = ZipInput" "classify emptyZip = ZipInput"
  "classify brokenZip = ZipInput" "classify loosePdf = PdfInput"
  by (simp_all add: sample_defs classify_def char_class_defs)

lemma extract_samples:
  "extractPDFsFromZip sampleDecoder offerZip =
     Inr [\<lparr>name = lit ''A_B_C_D_note.PDF'', type = lit ''application/pdf'', content = [7]\<rparr>]"
  "extractPDFsFromZip sampleDecoder emptyZip = Inr []"
  "extractPDFsFromZip sampleDecoder brokenZip = Inl ZipNotReadable"
  by (simp_all add: sample_defs extractPDFsFromZip_def char_class_defs)

lemma pdfItem_samples:
  "pdfItem loosePdf =
     \<lparr>originalFile = loosePdf, originalName = lit ''A_B_C_D_x.pdf'', newName_pf = lit ''x.pdf'',
      status = Processed, errorMessage = None\<rparr>"
  "pdfItem \<lparr>name = lit ''A_B_C_D_note.PDF'', type = lit ''application/pdf'', content = [7]\<rparr> =
     \<lparr>originalFile = \<lparr>name = lit ''A_B_C_D_note.PDF'', type = lit ''application/pdf'', content = [7]\<rparr>,
      originalName = lit ''A_B_C_D_note.PDF'', newName_pf = lit ''note.pdf'',
      status = Processed, errorMessage = None\<rparr>"
  by (simp_all add: pdfItem_def loosePdf_def normalizer_defs Let_def)

lemma itemsOf_samples:
  "itemsOf sampleDecoder loosePdf = [pdfItem loosePdf]"
  "itemsOf sampleDecoder brokenZip = [archiveItem brokenZip ArchiveUnreadable]"
  "itemsOf sampleDecoder emptyZip = [archiveItem emptyZip NoPdfEntriesFound]"
  "itemsOf sampleDecoder offerZip =
     [pdfItem \<lparr>name = lit ''A_B_C_D_note.PDF'', type = lit ''application/pdf'', content = [7]\<rparr>]"
  by (simp_all add: itemsOf_zip classify_samples extract_samples)
     (simp add: itemsOf_def handleFile_def classify_samples handlePdf_def)

lemma base_name_samples:
  "replaceSuffixI (lit ''.zip'') (name offerZip) = lit ''Angebot''"
  "replaceSuffixI (lit ''.zip'') (name emptyZip) = lit ''leer''"
  "replaceSuffixI (lit ''.zip'') (name brokenZip) = lit ''kaputt''"
  by (simp_all add: sample_defs char_class_defs)

lemma sample_names:
  "lit ''leer'' \<noteq> lit ''Angebot''" "lit ''kaputt'' \<noteq> []"
  "lit ''kaputt'' @ lit ''.zip'' = lit ''kaputt.zip''"
  by (simp_all add: lit_def)

lemma initialState_simps:
  "files initialState = []" "uploadedZipName initialState = []"
  by (simp_all add: initialState_def)


subsection \<open>The archive base name\<close>

text \<open>
  C1, as the code has it. After a submission the recorded archive base name is the base
  name (the name without its \<open>.zip\<close> extension, in any case) of the last archive among the
  inputs, and the name recorded before when the inputs hold no archive: every archive
  overwrites the name. Two submissions in a row act as one submission of both input
  lists, so the same holds across submissions.
\<close>

theorem uploadedZipName_last_archive:
  "uploadedZipName (handleFiles loadAsync fileList st) =
     (case filter (\<lambda>f. endsWith (toLowerCase (name f)) (lit ''.zip'')) fileList of
        [] \<Rightarrow> uploadedZipName st
      | z # zs \<Rightarrow> replaceSuffixI (lit ''.zip'') (name (last (z # zs)))) \<and>
   handleFiles loadAsync later (handleFiles loadAsync earlier st) =
     handleFiles loadAsync (earlier @ later) st"
proof -
  have "(\<lambda>f. endsWith (toLowerCase (name f)) (lit ''.zip'')) = (\<lambda>f. classify f = ZipInput)"
    by (auto simp add: classify_def)
  then show ?thesis
    by (simp add: uploadedZipName_handleFiles foldl_nameAfter handleFiles_append)
qed

theorem uploadedZipName_last_archive_witness:
  "uploadedZipName (handleFiles sampleDecoder [offerZip, loosePdf, brokenZip] initialState) =
     lit ''kaputt''"
proof -
  have sel: "filter (\<lambda>f. endsWith (toLowerCase (name f)) (lit ''.zip''))
      [offerZip, loosePdf, brokenZip] = [offerZip, brokenZip]"
    by (simp add: sample_defs char_class_defs)
  have "uploadedZipName (handleFiles sampleDecoder [offerZip, loosePdf, brokenZip] initialState) =
     (case filter (\<lambda>f. endsWith (toLowerCase (name f)) (lit ''.zip''))
             [offerZip, loosePdf, brokenZip] of
        [] \<Rightarrow> uploadedZipName initialState
      | z # zs \<Rightarrow> replaceSuffixI (lit ''.zip'') (name (last (z # zs))))"
    using uploadedZipName_last_archive
            [of sampleDecoder "[offerZip, loosePdf, brokenZip]" initialState "[]" "[]"]
    by (rule conjunct1)
  then have "uploadedZipName (handleFiles sampleDecoder [offerZip, loosePdf, brokenZip] initialState) =
      replaceSuffixI (lit ''.zip'') (name brokenZip)"
    unfolding sel by simp
  then show ?thesis
    by (simp only: base_name_samples)
qed

text \<open>
  C1 as stated fails: with two archives in one submission, or in two submissions, the
  recorded name is that of the second archive, not of the first.
\<close>

theorem first_archive_name_overwritten:
  "uploadedZipName (handleFiles sampleDecoder [offerZip, emptyZip] initialState)
     \<noteq> replaceSuffixI (lit ''.zip'') (name offerZip) \<and>
   uploadedZipName
     (handleFiles sampleDecoder [emptyZip] (handleFiles sampleDecoder [offerZip] initialState))
     \<noteq> uploadedZipName (handleFiles sampleDecoder [offerZip] initialState) \<and>
   uploadedZipName (handleFiles sampleDecoder [offerZip] initialState) =
     replaceSuffixI (lit ''.zip'') (name offerZip)"
  by (simp add: uploadedZipName_handleFiles nameAfter_def classify_samples base_name_samples
      sample_names)

text \<open>
  C10. An input classified as an archive sets the recorded base name to its own base
  name whatever the extraction gives: with any decoder, so also when the archive cannot
  be read or holds no PDF. That name is the one \<open>downloadAllAsZip\<close> then uses for its
  download, with \<open>.zip\<close> appended, unless it is empty, where the default name is used.
\<close>

theorem archive_sets_base_name:
  assumes "classify f = ZipInput"
  shows
    "uploadedZipName (handleFiles loadAsync [f] st) = replaceSuffixI (lit ''.zip'') (name f) \<and>
     (downloadAllAsZip generateAsync (handleFiles loadAsync [f] st) = Download n b \<longrightarrow>
        n = (if replaceSuffixI (lit ''.zip'') (name f) \<noteq> []
             then replaceSuffixI (lit ''.zip'') (name f) @ lit ''.zip''
             else lit ''bAV-Angebot.zip''))"
  using assms
  by (auto simp add: uploadedZipName_handleFiles nameAfter_def downloadAllAsZip_def Let_def
      split: if_splits option.splits)

theorem archive_sets_base_name_witness:
  "classify brokenZip = ZipInput \<and>
   extractPDFsFromZip sampleDecoder brokenZip = Inl ZipNotReadable \<and>
   uploadedZipName
     (handleFiles sampleDecoder [brokenZip] (handleFiles sampleDecoder [loosePdf, offerZip] initialState))
     = lit ''kaputt'' \<and>
   downloadAllAsZip (\<lambda>z. Some [9])
     (handleFiles sampleDecoder [brokenZip] (handleFiles sampleDecoder [loosePdf, offerZip] initialState))
     = Download (lit ''kaputt.zip'') [9]"
proof -
  define st where "st = handleFiles sampleDecoder [loosePdf, offerZip] initialState"
  have c: "classify brokenZip = ZipInput"
    by (simp add: classify_samples)
  have nm: "uploadedZipName (handleFiles sampleDecoder [brokenZip] st) =
      replaceSuffixI (lit ''.zip'') (name brokenZip)"
    using archive_sets_base_name [OF c, of sampleDecoder st] by (rule conjunct1)
  have some: "filter (\<lambda>f. status f = Processed) (files (handleFiles sampleDecoder [brokenZip] st)) \<noteq> []"
    by (simp add: st_def files_handleFiles itemsOf_samples pdfItem_samples initialState_simps)
  have "downloadAllAsZip (\<lambda>z. Some [9]) (handleFiles sampleDecoder [brokenZip] st) =
      Download (lit ''kaputt.zip'') [9]"
    using some by (simp add: downloadAllAsZip_def Let_def nm base_name_samples sample_names)
  with c nm show ?thesis
    by (simp add: st_def extract_samples base_name_samples)
qed

subsection \<open>Classification of the inputs\<close>

text \<open>
  C9. An input whose name ends in \<open>.zip\<close>, in any case, takes the archive branch of
  \<open>handleFiles\<close>, whatever its declared media type, \<open>application/pdf\<close> included; the
  branch for a loose PDF is taken only by inputs whose name does not end in \<open>.zip\<close>.
\<close>

theorem zip_name_is_archive:
  "(endsWith (toLowerCase (name f)) (lit ''.zip'') \<longrightarrow>
      classify f = ZipInput \<and>
      classify (f\<lparr>type := lit ''application/pdf''\<rparr>) = ZipInput \<and>
      handleFile loadAsync f s = handleZip loadAsync f s) \<and>
   (classify f = PdfInput \<longrightarrow> \<not> endsWith (toLowerCase (name f)) (lit ''.zip''))"
  by (simp add: classify_def handleFile_def)

theorem zip_name_is_archive_witness:
  "endsWith (toLowerCase (name emptyZip)) (lit ''.zip'') \<and>
   type emptyZip = lit ''application/pdf'' \<and>
   classify emptyZip = ZipInput \<and>
   handleFile sampleDecoder emptyZip ([], []) =
     ([archiveItem emptyZip NoPdfEntriesFound], lit ''leer'') \<and>
   classify loosePdf = PdfInput \<and>
   \<not> endsWith (toLowerCase (name loosePdf)) (lit ''.zip'')"
proof -
  have a: "endsWith (toLowerCase (name emptyZip)) (lit ''.zip'')"
    by (simp add: emptyZip_def char_class_defs)
  have b: "classify loosePdf = PdfInput"
    by (simp add: classify_samples)
  have z: "handleZip sampleDecoder emptyZip ([], []) =
      ([archiveItem emptyZip NoPdfEntriesFound], lit ''leer'')"
    by (simp add: handleZip_def Let_def extract_samples base_name_samples)
  from zip_name_is_archive [of emptyZip sampleDecoder "([], [])"]
       zip_name_is_archive [of loosePdf sampleDecoder "([], [])"] a b z
  show ?thesis
    by (simp add: emptyZip_def)
qed

subsection \<open>Order of the items\<close>

text \<open>
  C7. A submission leaves the items already in the batch as they are, in their order,
  and appends to them, for each input in turn, the items that input gives when
  submitted alone: all items of one input come before all items of the next.
\<close>

theorem handleFiles_appends_in_input_order:
  "files (handleFiles loadAsync fileList st) =
     files st @ concat (map (\<lambda>f. files (handleFiles loadAsync [f] initialState)) fileList)"
  by (simp add: files_handleFiles initialState_def)

theorem handleFiles_appends_in_input_order_witness:
  "files (handleFiles sampleDecoder [offerZip, loosePdf]
            (handleFiles sampleDecoder [brokenZip] initialState)) =
     [archiveItem brokenZip ArchiveUnreadable,
      pdfItem \<lparr>name = lit ''A_B_C_D_note.PDF'', type = lit ''application/pdf'', content = [7]\<rparr>,
      pdfItem loosePdf]"
  using handleFiles_appends_in_input_order
          [of sampleDecoder "[offerZip, loosePdf]" "handleFiles sampleDecoder [brokenZip] initialState"]
        handleFiles_appends_in_input_order [of sampleDecoder "[brokenZip]" initialState]
  by (simp add: itemsOf_single itemsOf_samples)

subsection \<open>Archives that give no items\<close>

text \<open>
  C5. For an input classified as an archive: when its extraction fails (the decoder
  fails, for one), the input gives exactly one item, an error item for the archive with
  the message that the archive could not be processed; when it decodes and no entry has
  a name ending in \<open>.pdf\<close>, in any case, it gives exactly one error item with the message
  that no PDF was found. In a submission the items of the inputs before and after such
  an archive are those these inputs give without it.
\<close>

theorem archive_errors_are_local:
  assumes "classify f = ZipInput"
  shows
    "(loadAsync (content f) = None \<longrightarrow> extractPDFsFromZip loadAsync f = Inl ZipNotReadable) \<and>
     (extractPDFsFromZip loadAsync f = Inl e \<longrightarrow>
        files (handleFiles loadAsync [f] initialState) =
          [\<lparr>originalFile = f, originalName = name f, newName_pf = name f,
            status = Error, errorMessage = Some ArchiveUnreadable\<rparr>]) \<and>
     (loadAsync (content f) = Some zipContent \<and>
      (\<forall>entry \<in> set zipContent. \<not> endsWith (toLowerCase (fst entry)) (lit ''.pdf'')) \<longrightarrow>
        files (handleFiles loadAsync [f] initialState) =
          [\<lparr>originalFile = f, originalName = name f, newName_pf = name f,
            status = Error, errorMessage = Some NoPdfEntriesFound\<rparr>]) \<and>
     files (handleFiles loadAsync (before @ [f] @ after) st) =
       files st @ files (handleFiles loadAsync before initialState)
         @ files (handleFiles loadAsync [f] initialState)
         @ files (handleFiles loadAsync after initialState)"
proof (intro conjI impI)
  show "extractPDFsFromZip loadAsync f = Inl ZipNotReadable" if "loadAsync (content f) = None"
    using that by (simp add: extractPDFsFromZip_def)
next
  assume "extractPDFsFromZip loadAsync f = Inl e"
  with assms show "files (handleFiles loadAsync [f] initialState) =
          [\<lparr>originalFile = f, originalName = name f, newName_pf = name f,
            status = Error, errorMessage = Some ArchiveUnreadable\<rparr>]"
    by (simp add: itemsOf_single itemsOf_zip archiveItem_def)
next
  assume h: "loadAsync (content f) = Some zipContent \<and>
      (\<forall>entry \<in> set zipContent. \<not> endsWith (toLowerCase (fst entry)) (lit ''.pdf''))"
  then have "extractPDFsFromZip loadAsync f = Inr []"
    by (simp add: extractPDFsFromZip_def collectPdfs_no_pdf)
  with assms show "files (handleFiles loadAsync [f] initialState) =
          [\<lparr>originalFile = f, originalName = name f, newName_pf = name f,
            status = Error, errorMessage = Some NoPdfEntriesFound\<rparr>]"
    by (simp add: itemsOf_single itemsOf_zip archiveItem_def)
next
  show "files (handleFiles loadAsync (before @ [f] @ after) st) =
       files st @ files (handleFiles loadAsync before initialState)
         @ files (handleFiles loadAsync [f] initialState)
         @ files (handleFiles loadAsync after initialState)"
    by (simp add: files_handleFiles initialState_def)
qed

theorem archive_errors_are_local_witness:
  "classify brokenZip = ZipInput \<and> sampleDecoder (content brokenZip) = None \<and>
   files (handleFiles sampleDecoder [brokenZip] initialState) =
     [\<lparr>originalFile = brokenZip, originalName = lit ''kaputt.zip'', newName_pf = lit ''kaputt.zip'',
       status = Error, errorMessage = Some ArchiveUnreadable\<rparr>] \<and>
   files (handleFiles sampleDecoder ([loosePdf] @ [brokenZip] @ [offerZip]) initialState) =
     [pdfItem loosePdf,
      \<lparr>originalFile = brokenZip, originalName = lit ''kaputt.zip'', newName_pf = lit ''kaputt.zip'',
       status = Error, errorMessage = Some ArchiveUnreadable\<rparr>,
      pdfItem \<lparr>name = lit ''A_B_C_D_note.PDF'', type = lit ''application/pdf'', content = [7]\<rparr>]"
proof -
  have c: "classify brokenZip = ZipInput"
    by (simp add: classify_samples)
  have n: "sampleDecoder (content brokenZip) = None"
    by (simp add: sample_defs)
  have nm: "name brokenZip = lit ''kaputt.zip''"
    by (simp add: brokenZip_def)
  from archive_errors_are_local
         [OF c, of sampleDecoder ZipNotReadable "[]" "[loosePdf]" "[offerZip]" initialState] c n
  show ?thesis
    by (simp add: itemsOf_single itemsOf_samples nm initialState_simps)
qed


section \<open>Properties of packaging\<close>

lemma addFiles_foldl:
  "addFiles z fs = foldl (\<lambda>z f. zip_file z (newName_pf f) (content (originalFile f))) z fs"
  by (induction fs arbitrary: z) simp_all

text \<open>
  C6. \<open>downloadAllAsZip\<close> does nothing when the batch has no renamed item. Otherwise it
  writes the renamed items, and only them, in batch order into a new archive, each under
  its new name with its original bytes, and, when the encoding succeeds, offers the
  archive under the recorded archive base name with \<open>.zip\<close> appended, or under
  \<open>bAV-Angebot.zip\<close> when no base name is recorded.
\<close>

theorem downloadAllAsZip_packages_renamed:
  "downloadAllAsZip generateAsync st =
     (if \<exists>f \<in> set (files st). status f = Processed
      then case generateAsync
                  (foldl (\<lambda>z f. zip_file z (newName_pf f) (content (originalFile f))) []
                     (filter (\<lambda>f. status f = Processed) (files st))) of
             None \<Rightarrow> Failed
           | Some zipBlob \<Rightarrow>
               Download (if uploadedZipName st = [] then lit ''bAV-Angebot.zip''
                         else uploadedZipName st @ lit ''.zip'') zipBlob
      else NoDownload)"
  by (auto simp add: downloadAllAsZip_def Let_def addFiles_foldl filter_empty_conv
      split: option.splits)

theorem downloadAllAsZip_packages_renamed_witness:
  "downloadAllAsZip sampleEncoder (handleFiles sampleDecoder [brokenZip] initialState) = NoDownload \<and>
   downloadAllAsZip sampleEncoder (handleFiles sampleDecoder [loosePdf] initialState) =
     Download (lit ''bAV-Angebot.zip'') [5] \<and>
   downloadAllAsZip sampleEncoder (handleFiles sampleDecoder [emptyZip, loosePdf] initialState) =
     Download (lit ''leer.zip'') [5]"
proof -
  have n: "uploadedZipName (handleFiles sampleDecoder [brokenZip] initialState) = lit ''kaputt''"
    "uploadedZipName (handleFiles sampleDecoder [loosePdf] initialState) = []"
    "uploadedZipName (handleFiles sampleDecoder [emptyZip, loosePdf] initialState) = lit ''leer''"
    by (simp_all add: uploadedZipName_handleFiles nameAfter_def classify_samples
        base_name_samples initialState_simps)
  have f: "files (handleFiles sampleDecoder [brokenZip] initialState) =
      [archiveItem brokenZip ArchiveUnreadable]"
    "files (handleFiles sampleDecoder [loosePdf] initialState) = [pdfItem loosePdf]"
    "files (handleFiles sampleDecoder [emptyZip, loosePdf] initialState) =
      [archiveItem emptyZip NoPdfEntriesFound, pdfItem loosePdf]"
    by (simp_all add: files_handleFiles itemsOf_samples initialState_simps)
  have z: "zip_file [] (lit ''x.pdf'') [4] = [(lit ''x.pdf'', \<lparr>dir = False, async_blob = Some [4]\<rparr>)]"
    by (simp add: zip_file_def)
  have e: "sampleEncoder [(lit ''x.pdf'', \<lparr>dir = False, async_blob = Some [4]\<rparr>)] = Some [5]"
    by (simp add: sampleEncoder_def)
  have l: "lit ''leer'' \<noteq> []" "lit ''leer'' @ lit ''.zip'' = lit ''leer.zip''"
    "content loosePdf = [4]"
    by (simp_all add: lit_def loosePdf_def)
  show ?thesis
    unfolding downloadAllAsZip_packages_renamed n f
    by (simp add: archiveItem_def pdfItem_samples z e l)
qed

section \<open>Packaging and extracting again\<close>

















text \<open>A name without \<open>/\<close> is left as it is, unless it is \<open>.\<close> or \<open>..\<close>.\<close>

lemma splitFrom_no_separator: "sep \<notin> set s \<Longrightarrow> splitFrom sep cur s = [cur @ s]"
  by (induction s arbitrary: cur) auto

lemma resolve_no_slash:
  "0x2F \<notin> set n \<Longrightarrow> n \<noteq> lit ''.'' \<Longrightarrow> n \<noteq> lit ''..'' \<Longrightarrow> resolve n = n"
  by (simp add: resolve_def js_split_def splitFrom_no_separator)





end
